theory Spec2Isabelle
  imports Main
begin

section \<open>The document tree read by \<^verbatim>\<open>src/content.js\<close>\<close>

text \<open>
  \<^verbatim>\<open>getXPath\<close> and \<^verbatim>\<open>generateSelector\<close> (content.js, lines 245-300) read a live DOM
  through the properties \<^verbatim>\<open>id\<close>, \<^verbatim>\<open>nodeType\<close>, \<^verbatim>\<open>nodeName\<close>, \<^verbatim>\<open>tagName\<close>,
  \<^verbatim>\<open>className\<close>, \<^verbatim>\<open>classList\<close>, \<^verbatim>\<open>previousSibling\<close>, \<^verbatim>\<open>nextSibling\<close>,
  \<^verbatim>\<open>parentNode\<close> and \<^verbatim>\<open>parentElement\<close>.

  A node is a tagged union of the DOM's node kinds.  An element carries its tag name, the
  value of \<^verbatim>\<open>id\<close>, the value of \<^verbatim>\<open>className\<close>, the tokens of \<^verbatim>\<open>classList\<close> and its other
  attributes, in this order.  \<^verbatim>\<open>id\<close> and \<^verbatim>\<open>className\<close> are strings, as they are on HTML
  elements, and empty when the attribute is absent; an SVG element, whose \<^verbatim>\<open>className\<close> is
  an object and not a string, is outside this model.  \<^verbatim>\<open>className\<close> and \<^verbatim>\<open>classList\<close> are
  kept as two independent fields: how the browser derives the token list from the
  attribute is not part of the repository.  The \<^verbatim>\<open>nodeName\<close> of an element is its
  \<^verbatim>\<open>tagName\<close>; the other kinds have the fixed names and the \<^verbatim>\<open>nodeType\<close> numbers of the DOM.
\<close>

datatype node =
    Element string string string "string list" "(string \<times> string) list"
  | Text string
  | CDATASection string
  | ProcessingInstruction string string
  | Comment string
  | Document
  | DocumentType string
  | DocumentFragment

definition ELEMENT_NODE :: nat where
  [simp]: "ELEMENT_NODE = 1"

fun nodeType :: "node \<Rightarrow> nat" where
  "nodeType (Element tag i cn cl as) = ELEMENT_NODE"
| "nodeType (Text s) = 3"
| "nodeType (CDATASection s) = 4"
| "nodeType (ProcessingInstruction t s) = 7"
| "nodeType (Comment s) = 8"
| "nodeType Document = 9"
| "nodeType (DocumentType n) = 10"
| "nodeType DocumentFragment = 11"

fun nodeName :: "node \<Rightarrow> string" where
  "nodeName (Element tag i cn cl as) = tag"
| "nodeName (Text s) = ''#text''"
| "nodeName (CDATASection s) = ''#cdata-section''"
| "nodeName (ProcessingInstruction t s) = t"
| "nodeName (Comment s) = ''#comment''"
| "nodeName Document = ''#document''"
| "nodeName (DocumentType n) = n"
| "nodeName DocumentFragment = ''#document-fragment''"

text \<open>
  The properties that only elements have.  On any other node the JavaScript read gives
  \<^verbatim>\<open>undefined\<close>, which is \<open>None\<close> here.
\<close>

fun tagName :: "node \<Rightarrow> string option" where
  "tagName (Element tag i cn cl as) = Some tag"
| "tagName _ = None"

fun id_prop :: "node \<Rightarrow> string option" where
  "id_prop (Element tag i cn cl as) = Some i"
| "id_prop _ = None"

fun className :: "node \<Rightarrow> string option" where
  "className (Element tag i cn cl as) = Some cn"
| "className _ = None"

fun classList :: "node \<Rightarrow> string list option" where
  "classList (Element tag i cn cl as) = Some cl"
| "classList _ = None"

text \<open>JavaScript truthiness of a value that is a string or \<^verbatim>\<open>undefined\<close>.\<close>

fun truthy :: "string option \<Rightarrow> bool" where
  "truthy None = False"
| "truthy (Some s) = (s \<noteq> [])"

text \<open>
  The document is a finite tree: a node and the ordered list of its children.  A tree
  cannot hold a cycle, and a node has at most one parent, as in the DOM.
\<close>

datatype dom = DomNode (label: node) (childNodes: "dom list")

text \<open>
  A reference to a node is the list of child indices from the node up to the root: the
  head is the node's own position among its siblings, the tail is the reference of its
  parent, and \<open>[]\<close> is the root.  A reference that leads to no node of the document
  stands for \<^verbatim>\<open>null\<close>.
\<close>

type_synonym ref = "nat list"

fun lookup :: "dom \<Rightarrow> ref \<Rightarrow> dom option" where
  "lookup d [] = Some d"
| "lookup d (i # up) =
     (case lookup d up of
        None \<Rightarrow> None
      | Some p \<Rightarrow> if i < length (childNodes p) then Some (childNodes p ! i) else None)"

definition nodeAt :: "dom \<Rightarrow> ref \<Rightarrow> node option" where
  "nodeAt d r = map_option label (lookup d r)"

text \<open>
  The links between nodes are read from the document: the previous sibling is the child
  before the node under the same parent, the next sibling the child after it, the parent
  node is one step up.  Each read gives a reference to a node of the document or \<^verbatim>\<open>null\<close>
  (\<open>None\<close>).
\<close>

definition refOrNull :: "dom \<Rightarrow> ref \<Rightarrow> ref option" where
  "refOrNull d r = (if lookup d r = None then None else Some r)"

definition previousSibling :: "dom \<Rightarrow> ref \<Rightarrow> ref option" where
  "previousSibling d r =
     (case r of
        [] \<Rightarrow> None
      | i # up \<Rightarrow> if i = 0 then None else refOrNull d ((i - 1) # up))"

definition nextSibling :: "dom \<Rightarrow> ref \<Rightarrow> ref option" where
  "nextSibling d r = (case r of [] \<Rightarrow> None | i # up \<Rightarrow> refOrNull d (Suc i # up))"

definition parentNode :: "dom \<Rightarrow> ref \<Rightarrow> ref option" where
  "parentNode d r = (case r of [] \<Rightarrow> None | i # up \<Rightarrow> refOrNull d up)"

definition parentElement :: "dom \<Rightarrow> ref \<Rightarrow> ref option" where
  "parentElement d r =
     (case parentNode d r of
        None \<Rightarrow> None
      | Some p \<Rightarrow> if map_option nodeType (nodeAt d p) = Some ELEMENT_NODE then Some p else None)"

section \<open>String helpers of the JavaScript runtime\<close>

text \<open>
  \<^verbatim>\<open>String.prototype.toLowerCase\<close> on the characters of the model (\<open>char\<close> is a byte):
  the letters A to Z are mapped to a to z, every other character is kept.  Cased letters
  beyond ASCII, which JavaScript also maps, are outside this model; the general theorems
  below hold for \<open>toLowerCase\<close> as a whole and do not depend on which letters it maps.
\<close>

definition toLowerCase_char :: "char \<Rightarrow> char" where
  "toLowerCase_char c =
     (let n = (of_char c :: nat) in if 65 \<le> n \<and> n \<le> 90 then char_of (n + 32) else c)"

definition toLowerCase :: "string \<Rightarrow> string" where
  "toLowerCase s = map toLowerCase_char s"

text \<open>\<^verbatim>\<open>Array.prototype.join\<close> on an array of strings.\<close>

fun join :: "string \<Rightarrow> string list \<Rightarrow> string" where
  "join sep [] = []"
| "join sep [x] = x"
| "join sep (x # y # ys) = x @ sep @ join sep (y # ys)"

text \<open>The decimal digits of a non-negative integer, as a template literal prints it.\<close>

definition digit_char :: "nat \<Rightarrow> char" where
  "digit_char n = char_of (48 + n)"

function numberToString :: "nat \<Rightarrow> string" where
  "numberToString n =
     (if n < 10 then [digit_char n] else numberToString (n div 10) @ [digit_char (n mod 10)])"
  by pat_completeness auto
termination
  by (relation "measure (\<lambda>n. n)") auto

declare numberToString.simps [simp del]

section \<open>The selector synthesizer\<close>

datatype error = TypeError

text \<open>
  Every statement takes the document and returns it with its value, so that what a call
  leaves behind is part of its result.

  Lines 254-261: the walk over the preceding siblings.
  \<^verbatim>\<open>
    let sibling = element.previousSibling;
    while (sibling) {
      if (sibling.nodeType === Node.ELEMENT_NODE && sibling.nodeName === element.nodeName) {
        nbOfPreviousSiblings++;
      }
      sibling = sibling.previousSibling;
    }
  \<close>
\<close>

definition sameElementName :: "dom \<Rightarrow> ref \<Rightarrow> ref \<Rightarrow> bool" where
  "sameElementName d sibling element \<longleftrightarrow>
     map_option nodeType (nodeAt d sibling) = Some ELEMENT_NODE \<and>
     map_option nodeName (nodeAt d sibling) = map_option nodeName (nodeAt d element)"

function previousLoop :: "dom \<Rightarrow> ref \<Rightarrow> ref option \<Rightarrow> nat \<Rightarrow> nat \<times> dom" where
  "previousLoop d element sibling nbOfPreviousSiblings =
     (case sibling of
        None \<Rightarrow> (nbOfPreviousSiblings, d)
      | Some s \<Rightarrow>
          previousLoop d element (previousSibling d s)
            (if sameElementName d s element then nbOfPreviousSiblings + 1
             else nbOfPreviousSiblings))"
  by pat_completeness auto
termination
  by (relation "measure (\<lambda>(d, element, sibling, nb).
        case sibling of None \<Rightarrow> 0 | Some [] \<Rightarrow> 1 | Some (i # up) \<Rightarrow> i + 2)")
     (auto simp: previousSibling_def refOrNull_def split: list.splits if_splits)

declare previousLoop.simps [simp del]

text \<open>
  Lines 263-270: the walk over the following siblings, left at the first match.
  \<^verbatim>\<open>
    sibling = element.nextSibling;
    while (sibling) {
      if (sibling.nodeType === Node.ELEMENT_NODE && sibling.nodeName === element.nodeName) {
        hasNextSiblings = true;
        break;
      }
      sibling = sibling.nextSibling;
    }
  \<close>
\<close>

definition siblingCount :: "dom \<Rightarrow> ref \<Rightarrow> nat" where
  "siblingCount d up = (case lookup d up of None \<Rightarrow> 0 | Some p \<Rightarrow> length (childNodes p))"

function nextLoop :: "dom \<Rightarrow> ref \<Rightarrow> ref option \<Rightarrow> bool \<Rightarrow> bool \<times> dom" where
  "nextLoop d element sibling hasNextSiblings =
     (case sibling of
        None \<Rightarrow> (hasNextSiblings, d)
      | Some s \<Rightarrow>
          if sameElementName d s element then (True, d)
          else nextLoop d element (nextSibling d s) hasNextSiblings)"
  by pat_completeness auto
termination
  by (relation "measure (\<lambda>(d, element, sibling, h).
        case sibling of None \<Rightarrow> 0 | Some [] \<Rightarrow> 1 | Some (i # up) \<Rightarrow> Suc (siblingCount d up - i))")
     (auto simp: nextSibling_def refOrNull_def siblingCount_def split: list.splits if_splits option.splits)

declare nextLoop.simps [simp del]

text \<open>
  Lines 251-275: the walk from the element up through its ancestors.
  \<^verbatim>\<open>
    while (element && element.nodeType === Node.ELEMENT_NODE) {
      let nbOfPreviousSiblings = 0;
      let hasNextSiblings = false;
      ... the two sibling walks ...
      const index = nbOfPreviousSiblings || hasNextSiblings ? `[${nbOfPreviousSiblings + 1}]` : '';
      parts.unshift(element.nodeName.toLowerCase() + index);
      element = element.parentNode;
    }
  \<close>
\<close>

function ancestorLoop :: "dom \<Rightarrow> ref option \<Rightarrow> string list \<Rightarrow> string list \<times> dom" where
  "ancestorLoop d element parts =
     (case element of
        None \<Rightarrow> (parts, d)
      | Some e \<Rightarrow>
          (case nodeAt d e of
             None \<Rightarrow> (parts, d)
           | Some n \<Rightarrow>
               if nodeType n \<noteq> ELEMENT_NODE then (parts, d)
               else
                 let (nbOfPreviousSiblings, d1) = previousLoop d e (previousSibling d e) 0;
                     (hasNextSiblings, d2) = nextLoop d1 e (nextSibling d1 e) False;
                     index = (if nbOfPreviousSiblings \<noteq> 0 \<or> hasNextSiblings
                              then ''['' @ numberToString (nbOfPreviousSiblings + 1) @ '']''
                              else '''')
                 in ancestorLoop d2 (parentNode d2 e) ((toLowerCase (nodeName n) @ index) # parts)))"
  by pat_completeness auto
termination
  by (relation "measure (\<lambda>(d, element, parts).
        case element of None \<Rightarrow> 0 | Some e \<Rightarrow> Suc (length e))")
     (auto simp: parentNode_def refOrNull_def split: list.splits if_splits)

declare ancestorLoop.simps [simp del]

text \<open>
  Lines 245-278.
  \<^verbatim>\<open>
  function getXPath(element) {
    if (element.id) {
      return `//*[@id="${element.id}"]`;
    }
    const parts = [];
    while ...
    return parts.length ? '/' + parts.join('/') : null;
  }
  \<close>
  The result is \<open>Inl TypeError\<close> when reading \<^verbatim>\<open>element.id\<close> throws (the reference is
  \<^verbatim>\<open>null\<close>), \<open>Inr None\<close> for the value \<^verbatim>\<open>null\<close> and \<open>Inr (Some s)\<close> for a string.
\<close>

definition getXPath :: "dom \<Rightarrow> ref \<Rightarrow> (error + string option) \<times> dom" where
  \<open>getXPath d element =
     (case nodeAt d element of
        None \<Rightarrow> (Inl TypeError, d)
      | Some n \<Rightarrow>
          if truthy (id_prop n) then
            (case id_prop n of
               Some i \<Rightarrow> (Inr (Some (''//*[@id="'' @ i @ ''"]'')), d)
             | None \<Rightarrow> (Inl TypeError, d))
          else
            let (parts, d1) = ancestorLoop d (Some element) []
            in (Inr (if length parts \<noteq> 0 then Some (''/'' @ join ''/'' parts) else None), d1))\<close>

text \<open>
  Lines 280-300.
  \<^verbatim>\<open>
  function generateSelector(element) {
    if (element.id) {
      return `#${element.id}`;
    }
    let selector = element.tagName.toLowerCase();
    if (element.className) {
      const classes = Array.from(element.classList).join('.');
      selector += `.${classes}`;
    }
    let parent = element.parentElement;
    if (parent && parent.tagName !== 'BODY') {
      const parentSelector = parent.id ? `#${parent.id}` : parent.tagName.toLowerCase();
      selector = `${parentSelector} > ${selector}`;
    }
    return selector;
  }
  \<close>
  Lines 285-290 build the selector of the element itself; \<open>baseSelector\<close> is that step.
  Calling \<^verbatim>\<open>toLowerCase\<close> on an undefined \<^verbatim>\<open>tagName\<close> throws.
\<close>

definition baseSelector :: "node \<Rightarrow> error + string" where
  "baseSelector n =
     (case tagName n of
        None \<Rightarrow> Inl TypeError
      | Some tag \<Rightarrow>
          let selector = toLowerCase tag
          in if truthy (className n) then
               (case classList n of
                  None \<Rightarrow> Inl TypeError
                | Some cl \<Rightarrow> Inr (selector @ ''.'' @ join ''.'' cl))
             else Inr selector)"

definition parentSelector :: "node \<Rightarrow> error + string" where
  "parentSelector p =
     (if truthy (id_prop p) then
        (case id_prop p of Some i \<Rightarrow> Inr (''#'' @ i) | None \<Rightarrow> Inl TypeError)
      else
        (case tagName p of Some tag \<Rightarrow> Inr (toLowerCase tag) | None \<Rightarrow> Inl TypeError))"

definition generateSelector :: "dom \<Rightarrow> ref \<Rightarrow> (error + string) \<times> dom" where
  "generateSelector d element =
     (case nodeAt d element of
        None \<Rightarrow> (Inl TypeError, d)
      | Some n \<Rightarrow>
          if truthy (id_prop n) then
            (case id_prop n of
               Some i \<Rightarrow> (Inr (''#'' @ i), d)
             | None \<Rightarrow> (Inl TypeError, d))
          else
            (case baseSelector n of
               Inl err \<Rightarrow> (Inl err, d)
             | Inr selector \<Rightarrow>
                 (case parentElement d element of
                    None \<Rightarrow> (Inr selector, d)
                  | Some parent \<Rightarrow>
                      (case nodeAt d parent of
                         None \<Rightarrow> (Inr selector, d)
                       | Some p \<Rightarrow>
                           if tagName p \<noteq> Some ''BODY'' then
                             (case parentSelector p of
                                Inl err \<Rightarrow> (Inl err, d)
                              | Inr ps \<Rightarrow> (Inr (ps @ '' > '' @ selector), d))
                           else (Inr selector, d)))))"

section \<open>The path expression as the specification words it\<close>

text \<open>
  The specification describes the result of \<^verbatim>\<open>computeXPath\<close> on an element without id
  by the siblings of each element on the way up, not by pointer walks.  These definitions
  follow that wording; the theorems below compare them with \<open>getXPath\<close>.

  The siblings before and after a node are the children of its parent on either side of
  it; the root has none.
\<close>

definition precedingSiblings :: "dom \<Rightarrow> ref \<Rightarrow> dom list" where
  "precedingSiblings d r =
     (case r of
        [] \<Rightarrow> []
      | i # up \<Rightarrow> (case lookup d up of None \<Rightarrow> [] | Some p \<Rightarrow> take i (childNodes p)))"

definition followingSiblings :: "dom \<Rightarrow> ref \<Rightarrow> dom list" where
  "followingSiblings d r =
     (case r of
        [] \<Rightarrow> []
      | i # up \<Rightarrow> (case lookup d up of None \<Rightarrow> [] | Some p \<Rightarrow> drop (Suc i) (childNodes p)))"

text \<open>A sibling has the identical tag name when it has a tag name and it is the same.\<close>

definition identicalTag :: "node \<Rightarrow> dom \<Rightarrow> bool" where
  "identicalTag n s \<longleftrightarrow> tagName (label s) \<noteq> None \<and> tagName (label s) = tagName n"

definition precedingCount :: "dom \<Rightarrow> ref \<Rightarrow> nat" where
  "precedingCount d r =
     (case nodeAt d r of
        None \<Rightarrow> 0
      | Some n \<Rightarrow> length (filter (identicalTag n) (precedingSiblings d r)))"

definition hasFollowing :: "dom \<Rightarrow> ref \<Rightarrow> bool" where
  "hasFollowing d r =
     (case nodeAt d r of
        None \<Rightarrow> False
      | Some n \<Rightarrow> list_ex (identicalTag n) (followingSiblings d r))"

text \<open>
  One segment: the lowercase tag name, with the 1-based positional predicate when a
  preceding or a following sibling has the identical tag name.
\<close>

definition xpathSegment :: "dom \<Rightarrow> ref \<Rightarrow> string" where
  "xpathSegment d r =
     (case map_option tagName (nodeAt d r) of
        Some (Some tag) \<Rightarrow>
          toLowerCase tag @
            (if precedingCount d r > 0 \<or> hasFollowing d r
             then ''['' @ numberToString (precedingCount d r + 1) @ '']''
             else '''')
      | _ \<Rightarrow> '''')"

text \<open>
  The elements on the way up, in root-to-node order: the node itself and its ancestors, up
  to and without the first one that is not an element.
\<close>

definition isElement :: "dom \<Rightarrow> ref \<Rightarrow> bool" where
  "isElement d r \<longleftrightarrow> map_option nodeType (nodeAt d r) = Some ELEMENT_NODE"

fun elementPath :: "dom \<Rightarrow> ref \<Rightarrow> ref list" where
  "elementPath d [] = (if isElement d [] then [[]] else [])"
| "elementPath d (i # up) = (if isElement d (i # up) then elementPath d up @ [i # up] else [])"

definition xpathOfSegments :: "dom \<Rightarrow> ref \<Rightarrow> string" where
  "xpathOfSegments d r = ''/'' @ join ''/'' (map (xpathSegment d) (elementPath d r))"

section \<open>Example documents\<close>

text \<open>
  A small page.  With references written from the node up to the root, the
  \<^verbatim>\<open>html\<close> element is \<open>[1]\<close>, \<^verbatim>\<open>body\<close> is \<open>[2, 1]\<close>, the list is \<open>[0, 2, 1]\<close> and its
  third \<^verbatim>\<open>li\<close> is \<open>[3, 0, 2, 1]\<close> (a text node sits between the first two items), the
  toolbar is \<open>[1, 2, 1]\<close> and its button \<open>[0, 1, 2, 1]\<close>, the paragraph whose class
  attribute is one blank is \<open>[2, 2, 1]\<close> and the text in it \<open>[0, 2, 2, 1]\<close>, and the span
  with a double quote in its id is \<open>[3, 2, 1]\<close>.
\<close>

definition listItem :: dom where
  "listItem = DomNode (Element ''LI'' '''' '''' [] []) [DomNode (Text ''item'') []]"

definition examplePage :: dom where
  \<open>examplePage =
     DomNode Document
       [DomNode (DocumentType ''html'') [],
        DomNode (Element ''HTML'' '''' '''' [] [(''lang'', ''en'')])
          [DomNode (Element ''HEAD'' '''' '''' [] []) [],
           DomNode (Text '' '') [],
           DomNode (Element ''BODY'' '''' '''' [] [])
             [DomNode (Element ''UL'' '''' ''menu'' [''menu''] [])
                [listItem, DomNode (Text '' '') [], listItem, listItem, listItem, listItem],
              DomNode (Element ''DIV'' ''toolbar'' ''bar'' [''bar''] [])
                [DomNode (Element ''DIV'' '''' ''btn primary'' [''btn'', ''primary''] []) []],
              DomNode (Element ''P'' '''' '' '' [] []) [DomNode (Text ''hello'') []],
              DomNode (Element ''SPAN'' ''a"b c>d'' ''x'' [''x''] []) []]]]\<close>

text \<open>A \<^verbatim>\<open>div\<close> without id, classes, parent or children, and one whose class is one blank.\<close>

definition detachedDiv :: dom where
  "detachedDiv = DomNode (Element ''DIV'' '''' '''' [] []) []"

definition blankClassDiv :: dom where
  "blankClassDiv = DomNode (Element ''DIV'' '''' '' '' [] []) []"

text \<open>
  A \<^verbatim>\<open>div\<close> without id and without parent whose class attribute is two blanks, so that its
  class list is empty, with a text node in it.
\<close>

definition blankClassDetachedDiv :: dom where
  "blankClassDetachedDiv =
     DomNode (Element ''DIV'' '''' ''  '' [] []) [DomNode (Text ''content'') []]"

text \<open>
  A page of an XHTML document, where the browser reports tag names as they are written,
  in lower case: the \<^verbatim>\<open>html\<close> element is \<open>[0]\<close>, the document's body is \<open>[1, 0]\<close> and
  the paragraph in it is \<open>[0, 1, 0]\<close>.
\<close>

definition xhtmlPage :: dom where
  "xhtmlPage =
     DomNode Document
       [DomNode (Element ''html'' '''' '''' [] [(''xmlns'', ''http://www.w3.org/1999/xhtml'')])
          [DomNode (Element ''head'' '''' '''' [] []) [],
           DomNode (Element ''body'' '''' '''' [] [])
             [DomNode (Element ''p'' '''' ''k'' [''k''] []) [DomNode (Text ''hello'') []]]]]"

section \<open>Properties of the model\<close>

subsection \<open>The loops return the document they were given\<close>

lemma previousLoop_frame: "snd (previousLoop d element sibling nb) = d"
proof (induction d element sibling nb rule: previousLoop.induct)
  case (1 d element sibling nb)
  then show ?case
    by (subst previousLoop.simps) (simp split: option.splits)
qed

lemma nextLoop_frame: "snd (nextLoop d element sibling h) = d"
proof (induction d element sibling h rule: nextLoop.induct)
  case (1 d element sibling h)
  then show ?case
    by (subst nextLoop.simps) (simp split: option.splits)
qed

lemma ancestorLoop_frame: "snd (ancestorLoop d element parts) = d"
proof (induction d element parts rule: ancestorLoop.induct)
  case (1 d element parts)
  show ?case
  proof (cases element)
    case None
    then show ?thesis by (subst ancestorLoop.simps) simp
  next
    case (Some e)
    show ?thesis
    proof (cases "nodeAt d e")
      case None
      with Some show ?thesis by (subst ancestorLoop.simps) simp
    next
      case (Some n)
      note n = this
      show ?thesis
      proof (cases "nodeType n = ELEMENT_NODE")
        case False
        with n \<open>element = Some e\<close> show ?thesis by (subst ancestorLoop.simps) simp
      next
        case True
        obtain nb d1 where p: "previousLoop d e (previousSibling d e) 0 = (nb, d1)"
          by (cases "previousLoop d e (previousSibling d e) 0")
        obtain h d2 where q: "nextLoop d1 e (nextSibling d1 e) False = (h, d2)"
          by (cases "nextLoop d1 e (nextSibling d1 e) False")
        have d1: "d1 = d" using previousLoop_frame [of d e "previousSibling d e" 0] p by simp
        have d2: "d2 = d" using nextLoop_frame [of d1 e "nextSibling d1 e" False] q d1 by simp
        show ?thesis
          using "1.IH" [OF \<open>element = Some e\<close> n _ p [symmetric] refl q [symmetric] refl refl] True n \<open>element = Some e\<close> p q d1 d2
          apply (subst ancestorLoop.simps)
          apply (simp add: Let_def)
          done
      qed
    qed
  qed
qed

subsection \<open>The sibling walks count what the specification counts\<close>

lemma nodeAt_Cons:
  "lookup d up = Some p \<Longrightarrow> i < length (childNodes p) \<Longrightarrow> nodeAt d (i # up) = Some (label (childNodes p ! i))"
  by (simp add: nodeAt_def)

lemma nodeAt_ConsD:
  "nodeAt d (i # up) = Some n \<Longrightarrow> \<exists>p. lookup d up = Some p \<and> i < length (childNodes p) \<and> n = label (childNodes p ! i)"
  by (auto simp: nodeAt_def split: option.splits if_splits)

lemma sameElementName_child:
  assumes "lookup d up = Some p" "k < length (childNodes p)" "nodeAt d e = Some n" "nodeType n = ELEMENT_NODE"
  shows "sameElementName d (k # up) e \<longleftrightarrow> identicalTag n (childNodes p ! k)"
proof -
  obtain tag i cn cl as where n: "n = Element tag i cn cl as"
    using assms(4) by (cases n) auto
  show ?thesis
    using assms(1-3) n
    by (cases "label (childNodes p ! k)") (auto simp: sameElementName_def identicalTag_def nodeAt_def)
qed

lemma previousLoop_count:
  assumes "lookup d up = Some p" "nodeAt d e = Some n" "nodeType n = ELEMENT_NODE"
  shows "j \<le> length (childNodes p) \<Longrightarrow>
    fst (previousLoop d e (if j = 0 then None else Some ((j - 1) # up)) nb)
      = nb + length (filter (identicalTag n) (take j (childNodes p)))"
proof (induction j arbitrary: nb)
  case 0
  then show ?case by (subst previousLoop.simps) simp
next
  case (Suc k)
  have k: "k < length (childNodes p)" using Suc.prems by simp
  have same: "sameElementName d (k # up) e \<longleftrightarrow> identicalTag n (childNodes p ! k)"
    using sameElementName_child [OF assms(1) k assms(2,3)] .
  have prev: "previousSibling d (k # up) = (if k = 0 then None else Some ((k - 1) # up))"
    using assms(1) k by (auto simp: previousSibling_def refOrNull_def)
  have "fst (previousLoop d e (Some (k # up)) nb)
      = fst (previousLoop d e (if k = 0 then None else Some ((k - 1) # up))
          (if identicalTag n (childNodes p ! k) then nb + 1 else nb))"
    by (subst previousLoop.simps) (simp add: same prev)
  also have "\<dots> = (if identicalTag n (childNodes p ! k) then nb + 1 else nb)
        + length (filter (identicalTag n) (take k (childNodes p)))"
    using Suc.IH k by simp
  also have "\<dots> = nb + length (filter (identicalTag n) (take (Suc k) (childNodes p)))"
    using k by (simp add: take_Suc_conv_app_nth)
  finally show ?case by simp
qed

lemma nextLoop_exists:
  assumes "lookup d up = Some p" "nodeAt d e = Some n" "nodeType n = ELEMENT_NODE"
  shows "fst (nextLoop d e (if j < length (childNodes p) then Some (j # up) else None) h)
      = (h \<or> list_ex (identicalTag n) (drop j (childNodes p)))"
proof (induction "length (childNodes p) - j" arbitrary: j)
  case 0
  then show ?case by (subst nextLoop.simps) simp
next
  case (Suc m)
  then have j: "j < length (childNodes p)" by simp
  have same: "sameElementName d (j # up) e \<longleftrightarrow> identicalTag n (childNodes p ! j)"
    using sameElementName_child [OF assms(1) j assms(2,3)] .
  have nxt: "nextSibling d (j # up) = (if Suc j < length (childNodes p) then Some (Suc j # up) else None)"
    using assms(1) by (simp add: nextSibling_def refOrNull_def)
  have dr: "drop j (childNodes p) = childNodes p ! j # drop (Suc j) (childNodes p)"
    using j by (simp add: Cons_nth_drop_Suc)
  show ?case
  proof (cases "identicalTag n (childNodes p ! j)")
    case True
    then show ?thesis using j same dr by (subst nextLoop.simps) simp
  next
    case False
    have m: "m = length (childNodes p) - Suc j" using Suc.hyps(2) by simp
    have "fst (nextLoop d e (Some (j # up)) h)
        = fst (nextLoop d e (if Suc j < length (childNodes p) then Some (Suc j # up) else None) h)"
      using False same nxt by (subst nextLoop.simps) simp
    also have "\<dots> = (h \<or> list_ex (identicalTag n) (drop (Suc j) (childNodes p)))"
      using Suc.hyps(1) [OF m] .
    finally show ?thesis using j False dr by simp
  qed
qed

lemma previousLoop_root:
  "fst (previousLoop d e (previousSibling d []) nb) = nb"
  by (subst previousLoop.simps) (simp add: previousSibling_def)

lemma nextLoop_root:
  "fst (nextLoop d e (nextSibling d []) h) = h"
  by (subst nextLoop.simps) (simp add: nextSibling_def)

lemma previousLoop_precedingCount:
  assumes "nodeAt d e = Some n" "nodeType n = ELEMENT_NODE"
  shows "previousLoop d e (previousSibling d e) 0 = (precedingCount d e, d)"
proof (cases e)
  case Nil
  have "fst (previousLoop d e (previousSibling d e) 0) = precedingCount d e"
    using assms(1) Nil previousLoop_root [of d "[]" 0]
    by (simp add: precedingCount_def precedingSiblings_def)
  then show ?thesis
    using previousLoop_frame [of d e "previousSibling d e" 0] by (simp add: prod_eq_iff)
next
  case (Cons i up)
  obtain p where p: "lookup d up = Some p" "i < length (childNodes p)"
    using nodeAt_ConsD assms(1) Cons by blast
  have "previousSibling d e = (if i = 0 then None else Some ((i - 1) # up))"
    using Cons p by (auto simp: previousSibling_def refOrNull_def)
  then have "fst (previousLoop d e (previousSibling d e) 0)
      = length (filter (identicalTag n) (take i (childNodes p)))"
    using previousLoop_count [OF p(1) assms, of i 0] p(2) by simp
  also have "\<dots> = precedingCount d e"
    using assms(1) Cons p by (simp add: precedingCount_def precedingSiblings_def)
  finally show ?thesis
    using previousLoop_frame [of d e "previousSibling d e" 0] by (simp add: prod_eq_iff)
qed

lemma nextLoop_hasFollowing:
  assumes "nodeAt d e = Some n" "nodeType n = ELEMENT_NODE"
  shows "nextLoop d e (nextSibling d e) False = (hasFollowing d e, d)"
proof (cases e)
  case Nil
  have "fst (nextLoop d e (nextSibling d e) False) = hasFollowing d e"
    using assms(1) Nil nextLoop_root [of d "[]" False]
    by (simp add: hasFollowing_def followingSiblings_def)
  then show ?thesis
    using nextLoop_frame [of d e "nextSibling d e" False] by (simp add: prod_eq_iff)
next
  case (Cons i up)
  obtain p where p: "lookup d up = Some p" "i < length (childNodes p)"
    using nodeAt_ConsD assms(1) Cons by blast
  have "nextSibling d e = (if Suc i < length (childNodes p) then Some (Suc i # up) else None)"
    using Cons p by (simp add: nextSibling_def refOrNull_def)
  then have "fst (nextLoop d e (nextSibling d e) False)
      = list_ex (identicalTag n) (drop (Suc i) (childNodes p))"
    using nextLoop_exists [OF p(1) assms, of "Suc i" False] by simp
  also have "\<dots> = hasFollowing d e"
    using assms(1) Cons p by (simp add: hasFollowing_def followingSiblings_def)
  finally show ?thesis
    using nextLoop_frame [of d e "nextSibling d e" False] by (simp add: prod_eq_iff)
qed

subsection \<open>The ancestor walk collects the segments\<close>

lemma ancestorLoop_not_element:
  "\<not> isElement d e \<Longrightarrow> ancestorLoop d (Some e) parts = (parts, d)"
  by (subst ancestorLoop.simps) (auto simp: isElement_def split: option.splits)

lemma ancestorLoop_null: "ancestorLoop d None parts = (parts, d)"
  by (subst ancestorLoop.simps) simp

lemma ancestorLoop_element:
  assumes "isElement d e"
  shows "ancestorLoop d (Some e) parts = ancestorLoop d (parentNode d e) (xpathSegment d e # parts)"
proof -
  obtain n where n: "nodeAt d e = Some n" "nodeType n = ELEMENT_NODE"
    using assms by (auto simp: isElement_def)
  obtain tag i cn cl as where el: "n = Element tag i cn cl as"
    using n(2) by (cases n) auto
  have seg: "xpathSegment d e = toLowerCase (nodeName n) @
      (if precedingCount d e \<noteq> 0 \<or> hasFollowing d e
       then ''['' @ numberToString (precedingCount d e + 1) @ '']'' else '''')"
    using n(1) el by (simp add: xpathSegment_def)
  show ?thesis
    by (subst ancestorLoop.simps)
       (simp add: n previousLoop_precedingCount [OF n] nextLoop_hasFollowing [OF n] seg)
qed

lemma isElement_parent:
  "isElement d (i # up) \<Longrightarrow> lookup d up \<noteq> None"
  by (auto simp: isElement_def nodeAt_def split: option.splits)

lemma ancestorLoop_segments:
  "lookup d e \<noteq> None \<Longrightarrow>
   ancestorLoop d (Some e) parts = (map (xpathSegment d) (elementPath d e) @ parts, d)"
proof (induction e arbitrary: parts)
  case Nil
  show ?case
  proof (cases "isElement d []")
    case True
    then show ?thesis
      by (simp add: ancestorLoop_element parentNode_def ancestorLoop_null)
  next
    case False
    then show ?thesis by (simp add: ancestorLoop_not_element)
  qed
next
  case (Cons i up)
  show ?case
  proof (cases "isElement d (i # up)")
    case True
    have up: "lookup d up \<noteq> None" using True by (rule isElement_parent)
    then have "parentNode d (i # up) = Some up"
      by (simp add: parentNode_def refOrNull_def)
    then show ?thesis
      using True Cons.IH [OF up] by (simp add: ancestorLoop_element)
  next
    case False
    then show ?thesis by (simp add: ancestorLoop_not_element)
  qed
qed

lemma elementPath_nonempty: "isElement d e \<Longrightarrow> elementPath d e \<noteq> []"
  by (cases e) auto

lemma getXPath_no_id:
  assumes "nodeAt d e = Some n" "\<not> truthy (id_prop n)"
  shows "getXPath d e =
    (Inr (if isElement d e then Some (xpathOfSegments d e) else None), d)"
proof -
  have "lookup d e \<noteq> None" using assms(1) by (auto simp: nodeAt_def)
  then have loop: "ancestorLoop d (Some e) [] = (map (xpathSegment d) (elementPath d e), d)"
    using ancestorLoop_segments [of d e "[]"] by simp
  have "\<not> isElement d e \<Longrightarrow> elementPath d e = []"
    by (cases e) auto
  then show ?thesis
    using assms loop elementPath_nonempty [of d e]
    by (auto simp: getXPath_def xpathOfSegments_def)
qed

lemma getXPath_frame: "snd (getXPath d e) = d"
  using ancestorLoop_frame [of d "Some e" "[]"]
  by (auto simp: getXPath_def split: option.splits prod.splits)

lemma generateSelector_frame: "snd (generateSelector d e) = d"
  by (auto simp: generateSelector_def split: option.splits sum.splits)


subsection \<open>The selector of an element\<close>

lemma baseSelector_Element:
  "baseSelector (Element tag i cn cl as) =
     Inr (toLowerCase tag @ (if cn \<noteq> [] then ''.'' @ join ''.'' cl else []))"
  by (simp add: baseSelector_def)

lemma parentSelector_Element:
  "parentSelector (Element tag i cn cl as) =
     Inr (if i \<noteq> [] then ''#'' @ i else toLowerCase tag)"
  by (simp add: parentSelector_def)

lemma element_cases:
  "nodeType n = ELEMENT_NODE \<Longrightarrow> \<exists>tag i cn cl as. n = Element tag i cn cl as"
  by (cases n) auto

lemma parentElement_SomeD:
  assumes "parentElement d e = Some q"
  shows "\<exists>i tag pid cn cl as. e = i # q \<and> nodeAt d q = Some (Element tag pid cn cl as)"
proof -
  obtain i where e: "e = i # q"
    using assms
    by (cases e) (auto simp: parentElement_def parentNode_def refOrNull_def split: if_splits)
  have "map_option nodeType (nodeAt d q) = Some ELEMENT_NODE"
    using assms e by (auto simp: parentElement_def parentNode_def refOrNull_def split: if_splits)
  then obtain n where n: "nodeAt d q = Some n" "nodeType n = ELEMENT_NODE"
    by auto
  with e element_cases [OF n(2)] show ?thesis by auto
qed

lemma generateSelector_no_parent:
  assumes "nodeAt d e = Some n" "\<not> truthy (id_prop n)" "baseSelector n = Inr base"
      and "parentElement d e = None"
  shows "generateSelector d e = (Inr base, d)"
  using assms by (simp add: generateSelector_def)

lemma generateSelector_parent:
  assumes "nodeAt d e = Some n" "\<not> truthy (id_prop n)" "baseSelector n = Inr base"
      and "parentElement d e = Some q" "nodeAt d q = Some (Element ptag pid pcn pcl pas)"
  shows "generateSelector d e =
    (Inr (if ptag \<noteq> ''BODY''
          then (if pid \<noteq> [] then ''#'' @ pid else toLowerCase ptag) @ '' > '' @ base
          else base), d)"
  using assms by (simp add: generateSelector_def parentSelector_Element)

lemma generateSelector_element_returns:
  assumes "nodeAt d e = Some n" "nodeType n = ELEMENT_NODE"
  shows "\<exists>s. generateSelector d e = (Inr s, d)"
proof -
  obtain tag i cn cl as where n: "n = Element tag i cn cl as"
    using element_cases [OF assms(2)] by blast
  show ?thesis
  proof (cases "i \<noteq> []")
    case True
    then show ?thesis using assms(1) n by (simp add: generateSelector_def)
  next
    case False
    then have noid: "\<not> truthy (id_prop n)" using n by simp
    obtain base where base: "baseSelector n = Inr base"
      using n by (simp add: baseSelector_Element)
    show ?thesis
    proof (cases "parentElement d e")
      case None
      then show ?thesis using generateSelector_no_parent [OF assms(1) noid base] by simp
    next
      case (Some q)
      then obtain ptag pid pcn pcl pas where "nodeAt d q = Some (Element ptag pid pcn pcl pas)"
        using parentElement_SomeD by blast
      then show ?thesis using generateSelector_parent [OF assms(1) noid base Some] by simp
    qed
  qed
qed

lemma non_element_props:
  "nodeType n \<noteq> ELEMENT_NODE \<Longrightarrow> id_prop n = None \<and> tagName n = None"
  by (cases n) auto

lemma toLowerCase_div: "toLowerCase ''DIV'' = ''div''"
  by code_simp


section \<open>The claims\<close>

text \<open>
  C1.  For every node with a non-empty id, \<open>generateSelector\<close> returns exactly \<^verbatim>\<open>#<id>\<close> and
  \<open>getXPath\<close> returns exactly \<^verbatim>\<open>//*[@id="<id>"]\<close>, whatever the node's tag name, classes,
  other attributes and position in the document are: the tag, the class fields, the
  attributes, the document and the reference are arbitrary here.
\<close>

theorem id_short_circuit:
  assumes "nodeAt d element = Some (Element tag i cn cl as)" and "i \<noteq> []"
  shows \<open>getXPath d element = (Inr (Some (''//*[@id="'' @ i @ ''"]'')), d) \<and>
         generateSelector d element = (Inr (''#'' @ i), d)\<close>
  using assms by (simp add: getXPath_def generateSelector_def)

theorem id_short_circuit_witness:
  \<open>nodeAt examplePage [1, 2, 1] = Some (Element ''DIV'' ''toolbar'' ''bar'' [''bar''] []) \<and>
   ''toolbar'' \<noteq> [] \<and>
   getXPath examplePage [1, 2, 1] = (Inr (Some ''//*[@id="toolbar"]''), examplePage) \<and>
   generateSelector examplePage [1, 2, 1] = (Inr ''#toolbar'', examplePage)\<close>
proof -
  have h: "nodeAt examplePage [1, 2, 1] = Some (Element ''DIV'' ''toolbar'' ''bar'' [''bar''] [])"
    by code_simp
  show ?thesis
    using id_short_circuit [OF h] h by simp
qed

text \<open>
  C2.  For every element without id, \<open>getXPath\<close> returns the path the specification
  describes: one segment for the element and for each ancestor up to the first one that
  is not an element, in root-to-node order, joined by \<^verbatim>\<open>/\<close> after a leading \<^verbatim>\<open>/\<close>; a
  segment is the lowercase tag name, followed by \<^verbatim>\<open>[precedingCount + 1]\<close> exactly when a
  preceding or a following sibling has the identical tag name (\<open>xpathSegment\<close>).  The
  example is the third of five \<^verbatim>\<open>li\<close> under a \<^verbatim>\<open>ul\<close> that is the only list in the body.
\<close>

theorem getXPath_positional_path:
  assumes "nodeAt d element = Some n" and "nodeType n = ELEMENT_NODE"
      and "\<not> truthy (id_prop n)"
  shows "getXPath d element =
           (Inr (Some (''/'' @ join ''/'' (map (xpathSegment d) (elementPath d element)))), d)"
proof -
  have "isElement d element"
    using assms(1,2) by (simp add: isElement_def)
  then show ?thesis
    using getXPath_no_id [OF assms(1,3)] by (simp add: xpathOfSegments_def)
qed

theorem getXPath_positional_path_witness:
  "nodeAt examplePage [3, 0, 2, 1] = Some (Element ''LI'' '''' '''' [] []) \<and>
   nodeType (Element ''LI'' '''' '''' [] []) = ELEMENT_NODE \<and>
   \<not> truthy (id_prop (Element ''LI'' '''' '''' [] [])) \<and>
   elementPath examplePage [3, 0, 2, 1] = [[1], [2, 1], [0, 2, 1], [3, 0, 2, 1]] \<and>
   precedingCount examplePage [3, 0, 2, 1] = 2 \<and>
   xpathSegment examplePage [3, 0, 2, 1] = ''li[3]'' \<and>
   xpathSegment examplePage [0, 2, 1] = ''ul'' \<and>
   getXPath examplePage [3, 0, 2, 1] = (Inr (Some ''/html/body/ul/li[3]''), examplePage)"
proof -
  have h: "nodeAt examplePage [3, 0, 2, 1] = Some (Element ''LI'' '''' '''' [] [])"
    by code_simp
  have p: "elementPath examplePage [3, 0, 2, 1] = [[1], [2, 1], [0, 2, 1], [3, 0, 2, 1]]"
    by code_simp
  have c: "precedingCount examplePage [3, 0, 2, 1] = 2"
    by code_simp
  have s: "xpathSegment examplePage [1] = ''html''" "xpathSegment examplePage [2, 1] = ''body''"
    "xpathSegment examplePage [0, 2, 1] = ''ul''" "xpathSegment examplePage [3, 0, 2, 1] = ''li[3]''"
    by code_simp+
  show ?thesis
    using getXPath_positional_path [OF h] h p c s by simp
qed

text \<open>
  C3, in the form that holds.  On a node that is an element both functions return a
  string and leave the document as it was: \<open>getXPath\<close> never returns \<^verbatim>\<open>null\<close> there and
  neither throws, whatever the tag name (the empty one too) and wherever the element is
  (the root of its tree too).  On a node that is not an element \<open>getXPath\<close> returns
  \<^verbatim>\<open>null\<close> (line 277) and \<open>generateSelector\<close> throws a \<^verbatim>\<open>TypeError\<close> (line 285, \<^verbatim>\<open>tagName\<close> is
  undefined).  Both are total functions, so every call returns.  Nothing is said about the
  syntax of the strings.
\<close>

theorem synthesizer_results:
  assumes "nodeAt d element = Some n"
  shows "(nodeType n = ELEMENT_NODE \<longrightarrow>
            (\<exists>s. getXPath d element = (Inr (Some s), d)) \<and>
            (\<exists>s. generateSelector d element = (Inr s, d))) \<and>
         (nodeType n \<noteq> ELEMENT_NODE \<longrightarrow>
            getXPath d element = (Inr None, d) \<and>
            generateSelector d element = (Inl TypeError, d))"
proof (intro conjI impI)
  assume el: "nodeType n = ELEMENT_NODE"
  show "\<exists>s. getXPath d element = (Inr (Some s), d)"
  proof (cases "truthy (id_prop n)")
    case True
    then show ?thesis using assms by (cases "id_prop n") (auto simp: getXPath_def)
  next
    case False
    have "isElement d element" using assms el by (simp add: isElement_def)
    then show ?thesis using getXPath_no_id [OF assms False] by simp
  qed
  show "\<exists>s. generateSelector d element = (Inr s, d)"
    using generateSelector_element_returns [OF assms el] .
next
  assume ne: "nodeType n \<noteq> ELEMENT_NODE"
  have props: "id_prop n = None" "tagName n = None"
    using non_element_props [OF ne] by simp_all
  have "\<not> isElement d element" using assms ne by (simp add: isElement_def)
  then show "getXPath d element = (Inr None, d)"
    using getXPath_no_id [OF assms] props by simp
  show "generateSelector d element = (Inl TypeError, d)"
    using assms props by (simp add: generateSelector_def baseSelector_def)
qed

theorem synthesizer_results_witness:
  "nodeAt examplePage [2, 1] = Some (Element ''BODY'' '''' '''' [] []) \<and>
   nodeType (Element ''BODY'' '''' '''' [] []) = ELEMENT_NODE \<and>
   (\<exists>s. getXPath examplePage [2, 1] = (Inr (Some s), examplePage)) \<and>
   (\<exists>s. generateSelector examplePage [2, 1] = (Inr s, examplePage)) \<and>
   nodeAt examplePage [0] = Some (DocumentType ''html'') \<and>
   nodeType (DocumentType ''html'') \<noteq> ELEMENT_NODE \<and>
   getXPath examplePage [0] = (Inr None, examplePage) \<and>
   generateSelector examplePage [0] = (Inl TypeError, examplePage)"
proof -
  have h1: "nodeAt examplePage [2, 1] = Some (Element ''BODY'' '''' '''' [] [])"
    by code_simp
  have h2: "nodeAt examplePage [0] = Some (DocumentType ''html'')"
    by code_simp
  show ?thesis
    using synthesizer_results [OF h1] synthesizer_results [OF h2] h1 h2 by simp
qed

text \<open>
  C3, as the claim states it, fails on the text node inside the paragraph of the example
  page: \<open>getXPath\<close> returns \<^verbatim>\<open>null\<close> and \<open>generateSelector\<close> throws.  On the paragraph itself,
  an element, the selector returned is \<^verbatim>\<open>p.\<close>, a class selector without a name.
\<close>

theorem synthesizer_never_fails_counterexample:
  "nodeAt examplePage [0, 2, 2, 1] = Some (Text ''hello'') \<and>
   fst (getXPath examplePage [0, 2, 2, 1]) = Inr None \<and>
   fst (generateSelector examplePage [0, 2, 2, 1]) = Inl TypeError \<and>
   nodeAt examplePage [2, 2, 1] = Some (Element ''P'' '''' '' '' [] []) \<and>
   fst (generateSelector examplePage [2, 2, 1]) = Inr ''p.''"
  by code_simp

text \<open>
  C4, in the form that holds.  For an element without id, \<open>generateSelector\<close> looks at the
  immediate parent only, through \<^verbatim>\<open>parentElement\<close>: the parent element, when there is one,
  is the node one step up from the element.  With \<open>base\<close> the selector of lines 285-290:
  when there is no parent element the result is \<open>base\<close>; when the parent element's
  \<^verbatim>\<open>tagName\<close> is exactly the string \<^verbatim>\<open>BODY\<close> (line 294 compares the strings) the result is
  \<open>base\<close>; for every other parent element it is the parent's \<^verbatim>\<open>#<id>\<close>, or its lowercase
  tag name when it has no id, then \<^verbatim>\<open> > \<close>, then \<open>base\<close>.  A body whose \<^verbatim>\<open>tagName\<close> is
  spelled otherwise is such an other parent.
\<close>

theorem generateSelector_parent_prefix:
  assumes "nodeAt d element = Some n" and "nodeType n = ELEMENT_NODE"
      and "\<not> truthy (id_prop n)"
  shows "\<exists>base. baseSelector n = Inr base \<and>
           (parentElement d element = None \<longrightarrow> generateSelector d element = (Inr base, d)) \<and>
           (\<forall>parent. parentElement d element = Some parent \<longrightarrow>
              (\<exists>i. element = i # parent) \<and> isElement d parent) \<and>
           (\<forall>parent ptag pid pcn pcl pas.
              parentElement d element = Some parent \<and>
              nodeAt d parent = Some (Element ptag pid pcn pcl pas) \<longrightarrow>
              generateSelector d element =
                (Inr (if ptag = ''BODY'' then base
                      else (if pid \<noteq> [] then ''#'' @ pid else toLowerCase ptag)
                           @ '' > '' @ base), d))"
proof -
  obtain tag i cn cl as where n: "n = Element tag i cn cl as"
    using element_cases [OF assms(2)] by blast
  obtain base where base: "baseSelector n = Inr base"
    using n by (simp add: baseSelector_Element)
  have a: "parentElement d element = None \<longrightarrow> generateSelector d element = (Inr base, d)"
    using generateSelector_no_parent [OF assms(1,3) base] by blast
  have b: "\<forall>parent. parentElement d element = Some parent \<longrightarrow>
      (\<exists>i. element = i # parent) \<and> isElement d parent"
  proof (intro allI impI)
    fix parent
    assume "parentElement d element = Some parent"
    from parentElement_SomeD [OF this]
    show "(\<exists>i. element = i # parent) \<and> isElement d parent"
      by (auto simp: isElement_def)
  qed
  have c: "\<forall>parent ptag pid pcn pcl pas.
      parentElement d element = Some parent \<and>
      nodeAt d parent = Some (Element ptag pid pcn pcl pas) \<longrightarrow>
      generateSelector d element =
        (Inr (if ptag = ''BODY'' then base
              else (if pid \<noteq> [] then ''#'' @ pid else toLowerCase ptag) @ '' > '' @ base), d)"
  proof (intro allI impI, elim conjE)
    fix parent ptag pid pcn pcl pas
    assume q: "parentElement d element = Some parent"
      and p: "nodeAt d parent = Some (Element ptag pid pcn pcl pas)"
    show "generateSelector d element =
        (Inr (if ptag = ''BODY'' then base
              else (if pid \<noteq> [] then ''#'' @ pid else toLowerCase ptag) @ '' > '' @ base), d)"
      using generateSelector_parent [OF assms(1,3) base q p] by (cases "ptag = ''BODY''") simp_all
  qed
  from base a b c show ?thesis by (intro exI [of _ base] conjI)
qed

theorem generateSelector_parent_prefix_witness:
  "nodeAt examplePage [0, 1, 2, 1] = Some (Element ''DIV'' '''' ''btn primary'' [''btn'', ''primary''] []) \<and>
   parentElement examplePage [0, 1, 2, 1] = Some [1, 2, 1] \<and>
   nodeAt examplePage [1, 2, 1] = Some (Element ''DIV'' ''toolbar'' ''bar'' [''bar''] []) \<and>
   baseSelector (Element ''DIV'' '''' ''btn primary'' [''btn'', ''primary''] []) = Inr ''div.btn.primary'' \<and>
   generateSelector examplePage [0, 1, 2, 1] = (Inr ''#toolbar > div.btn.primary'', examplePage)"
proof -
  let ?n = "Element ''DIV'' '''' ''btn primary'' [''btn'', ''primary''] []"
  have h: "nodeAt examplePage [0, 1, 2, 1] = Some ?n"
    by code_simp
  have q: "parentElement examplePage [0, 1, 2, 1] = Some [1, 2, 1]"
    by code_simp
  have p: "nodeAt examplePage [1, 2, 1] = Some (Element ''DIV'' ''toolbar'' ''bar'' [''bar''] [])"
    by code_simp
  have b: "baseSelector ?n = Inr ''div.btn.primary''"
    by code_simp
  have t: "nodeType ?n = ELEMENT_NODE" "\<not> truthy (id_prop ?n)"
    by simp_all
  obtain base where base: "baseSelector ?n = Inr base"
    and pre: "\<forall>parent ptag pid pcn pcl pas.
        parentElement examplePage [0, 1, 2, 1] = Some parent \<and>
        nodeAt examplePage parent = Some (Element ptag pid pcn pcl pas) \<longrightarrow>
        generateSelector examplePage [0, 1, 2, 1] =
          (Inr (if ptag = ''BODY'' then base
                else (if pid \<noteq> [] then ''#'' @ pid else toLowerCase ptag) @ '' > '' @ base),
           examplePage)"
    using generateSelector_parent_prefix [OF h t] by blast
  have base_eq: "base = ''div.btn.primary''"
    using base b by simp
  have "generateSelector examplePage [0, 1, 2, 1] =
      (Inr (if ''DIV'' = ''BODY'' then base
            else (if ''toolbar'' \<noteq> [] then ''#'' @ ''toolbar'' else toLowerCase ''DIV'') @ '' > '' @ base),
       examplePage)"
    using pre q p by blast
  then have "generateSelector examplePage [0, 1, 2, 1] = (Inr ''#toolbar > div.btn.primary'', examplePage)"
    using base_eq by simp
  then show ?thesis using h q p b by simp
qed

text \<open>
  C4, as the claim states it, fails on the paragraph of the XHTML page: its parent is the
  document's body, whose \<^verbatim>\<open>tagName\<close> is \<^verbatim>\<open>body\<close> and not \<^verbatim>\<open>BODY\<close>, and the selector
  returned carries the parent prefix.
\<close>

theorem body_parent_prefix_counterexample:
  "nodeAt xhtmlPage [0, 1, 0] = Some (Element ''p'' '''' ''k'' [''k''] []) \<and>
   parentElement xhtmlPage [0, 1, 0] = Some [1, 0] \<and>
   nodeAt xhtmlPage [1, 0] = Some (Element ''body'' '''' '''' [] []) \<and>
   nodeAt xhtmlPage [0] =
     Some (Element ''html'' '''' '''' [] [(''xmlns'', ''http://www.w3.org/1999/xhtml'')]) \<and>
   nodeAt xhtmlPage [] = Some Document \<and>
   baseSelector (Element ''p'' '''' ''k'' [''k''] []) = Inr ''p.k'' \<and>
   fst (generateSelector xhtmlPage [0, 1, 0]) = Inr ''body > p.k''"
  by code_simp

text \<open>
  C5 at its failing input: a \<^verbatim>\<open>div\<close> whose class attribute is one blank has no classes, and
  the selector built for it is \<^verbatim>\<open>div.\<close>, not the bare tag name.  Line 287 tests the
  attribute string, line 288 joins the token list.
\<close>

theorem generateSelector_blank_class_trailing_dot:
  "nodeAt blankClassDiv [] = Some (Element ''DIV'' '''' '' '' [] []) \<and>
   classList (Element ''DIV'' '''' '' '' [] []) = Some [] \<and>
   baseSelector (Element ''DIV'' '''' '' '' [] []) = Inr ''div.'' \<and>
   fst (generateSelector blankClassDiv []) = Inr ''div.''"
  by code_simp

text \<open>
  A \<^verbatim>\<open>div\<close> without id, without parent (the root of its own tree, with any children), with
  an empty class list and an empty class attribute: \<open>generateSelector\<close> returns \<^verbatim>\<open>div\<close> and
  \<open>getXPath\<close> returns \<^verbatim>\<open>/div\<close>, nothing is thrown, and the ancestor loop ends after this
  one node.  The tag name may be written in any letter case, as the browser reports
  \<^verbatim>\<open>DIV\<close> in an HTML document.  The empty class attribute is needed, as the next theorem
  shows.
\<close>

lemma detached_div:
  assumes "toLowerCase tag = ''div''"
  shows "getXPath (DomNode (Element tag '''' '''' [] as) children) [] =
           (Inr (Some ''/div''), DomNode (Element tag '''' '''' [] as) children) \<and>
         generateSelector (DomNode (Element tag '''' '''' [] as) children) [] =
           (Inr ''div'', DomNode (Element tag '''' '''' [] as) children) \<and>
         ancestorLoop (DomNode (Element tag '''' '''' [] as) children) (Some []) [] =
           ([''div''], DomNode (Element tag '''' '''' [] as) children)"
proof -
  let ?n = "Element tag '''' '''' [] as"
  let ?d = "DomNode ?n children"
  have at: "nodeAt ?d [] = Some ?n"
    by (simp add: nodeAt_def)
  have el: "isElement ?d []"
    by (simp add: isElement_def nodeAt_def)
  have seg: "xpathSegment ?d [] = ''div''"
    using assms
    by (simp add: xpathSegment_def nodeAt_def precedingCount_def hasFollowing_def
        precedingSiblings_def followingSiblings_def)
  have loop: "ancestorLoop ?d (Some []) [] = ([''div''], ?d)"
    using ancestorLoop_segments [of ?d "[]" "[]"] el seg by simp
  have x: "getXPath ?d [] = (Inr (Some ''/div''), ?d)"
    using getXPath_no_id [OF at] el seg by (simp add: xpathOfSegments_def)
  have pe: "parentElement ?d [] = None"
    by (simp add: parentElement_def parentNode_def)
  have "baseSelector ?n = Inr ''div''"
    using assms by (simp add: baseSelector_Element)
  then have g: "generateSelector ?d [] = (Inr ''div'', ?d)"
    using generateSelector_no_parent [OF at _ _ pe] by simp
  show ?thesis using x g loop by simp
qed

lemma detached_div_example:
  "toLowerCase ''DIV'' = ''div'' \<and>
   getXPath detachedDiv [] = (Inr (Some ''/div''), detachedDiv) \<and>
   generateSelector detachedDiv [] = (Inr ''div'', detachedDiv) \<and>
   ancestorLoop detachedDiv (Some []) [] = ([''div''], detachedDiv)"
  using detached_div [OF toLowerCase_div, of "[]" "[]"] toLowerCase_div
  by (simp add: detachedDiv_def)

text \<open>
  C6 at its failing input: a \<^verbatim>\<open>div\<close> without id, without classes (its class list is empty,
  its class attribute is two blanks) and without parent.  \<open>getXPath\<close> returns \<^verbatim>\<open>/div\<close>, one
  segment, and nothing is thrown, but \<open>generateSelector\<close> returns \<^verbatim>\<open>div.\<close> where the claim
  says \<^verbatim>\<open>div\<close>: line 287 tests the attribute string, line 288 joins the empty token list.
\<close>

theorem detached_div_blank_class_trailing_dot:
  "nodeAt blankClassDetachedDiv [] = Some (Element ''DIV'' '''' ''  '' [] []) \<and>
   id_prop (Element ''DIV'' '''' ''  '' [] []) = Some '''' \<and>
   classList (Element ''DIV'' '''' ''  '' [] []) = Some [] \<and>
   parentNode blankClassDetachedDiv [] = None \<and>
   fst (getXPath blankClassDetachedDiv []) = Inr (Some ''/div'') \<and>
   fst (ancestorLoop blankClassDetachedDiv (Some []) []) = [''div''] \<and>
   fst (generateSelector blankClassDetachedDiv []) = Inr ''div.'' \<and>
   fst (generateSelector blankClassDetachedDiv []) \<noteq> Inr ''div''"
  by code_simp

text \<open>
  C7.  A second call on the document that the first call leaves behind returns what the
  first call returned, for either function and in either order: the result depends on the
  document and the node only, and no call changes what the next one reads.
\<close>

theorem repeated_calls_agree:
  "getXPath (snd (getXPath d element)) element = getXPath d element \<and>
   generateSelector (snd (generateSelector d element)) element = generateSelector d element \<and>
   generateSelector (snd (getXPath d element)) element = generateSelector d element \<and>
   getXPath (snd (generateSelector d element)) element = getXPath d element"
  by (simp add: getXPath_frame generateSelector_frame)

theorem repeated_calls_agree_witness:
  "getXPath (snd (getXPath examplePage [3, 0, 2, 1])) [3, 0, 2, 1] = getXPath examplePage [3, 0, 2, 1] \<and>
   generateSelector (snd (generateSelector examplePage [3, 0, 2, 1])) [3, 0, 2, 1] =
     generateSelector examplePage [3, 0, 2, 1] \<and>
   fst (getXPath examplePage [3, 0, 2, 1]) = Inr (Some ''/html/body/ul/li[3]'') \<and>
   fst (generateSelector examplePage [3, 0, 2, 1]) = Inr ''ul > li''"
proof -
  have "fst (getXPath examplePage [3, 0, 2, 1]) = Inr (Some ''/html/body/ul/li[3]'')"
    "fst (generateSelector examplePage [3, 0, 2, 1]) = Inr ''ul > li''"
    by code_simp+
  then show ?thesis
    using repeated_calls_agree [of examplePage "[3, 0, 2, 1]"] by simp
qed

text \<open>
  C8.  Neither function writes to the tree.  The document a call returns is the document
  it was given, so at every reference the node found there (kind, tag name, id, class
  fields, other attributes), its subtree, its parent link and its sibling links are the
  same before and after the call.  No node is created or removed.
\<close>

theorem synthesizer_reads_only:
  "snd (getXPath d element) = d \<and> snd (generateSelector d element) = d \<and>
   (\<forall>after. after = snd (getXPath d element) \<or> after = snd (generateSelector d element) \<longrightarrow>
      (\<forall>r. lookup after r = lookup d r \<and> nodeAt after r = nodeAt d r \<and>
           parentNode after r = parentNode d r \<and>
           previousSibling after r = previousSibling d r \<and>
           nextSibling after r = nextSibling d r))"
  by (auto simp: getXPath_frame generateSelector_frame)

theorem synthesizer_reads_only_witness:
  "snd (getXPath examplePage [0, 1, 2, 1]) = examplePage \<and>
   snd (generateSelector examplePage [0, 1, 2, 1]) = examplePage \<and>
   nodeAt (snd (getXPath examplePage [0, 1, 2, 1])) [0, 2, 1] = nodeAt examplePage [0, 2, 1] \<and>
   nextSibling (snd (generateSelector examplePage [0, 1, 2, 1])) [0, 2, 1] =
     nextSibling examplePage [0, 2, 1]"
  using synthesizer_reads_only [of examplePage "[0, 1, 2, 1]"] by simp



text \<open>
  C10.  An element without id whose class attribute string is not empty while its class
  list is empty (a class attribute of blanks only): the selector built in lines 285-290
  is the lowercase tag name followed by a dot, \<open>generateSelector\<close> returns it as it is when
  there is no parent element, and whatever the parent is the returned selector ends in
  that dot, a class selector without a name.
\<close>

theorem blank_class_trailing_dot:
  assumes "nodeAt d element = Some (Element tag [] cn [] as)" and "cn \<noteq> []"
  shows "baseSelector (Element tag [] cn [] as) = Inr (toLowerCase tag @ ''.'') \<and>
         (parentElement d element = None \<longrightarrow>
            generateSelector d element = (Inr (toLowerCase tag @ ''.''), d)) \<and>
         (\<exists>prefix. generateSelector d element = (Inr (prefix @ toLowerCase tag @ ''.''), d))"
proof -
  let ?n = "Element tag [] cn [] as"
  have base: "baseSelector ?n = Inr (toLowerCase tag @ ''.'')"
    using assms(2) by (simp add: baseSelector_Element)
  have noid: "\<not> truthy (id_prop ?n)" by simp
  have none: "generateSelector d element = (Inr (toLowerCase tag @ ''.''), d)"
    if "parentElement d element = None"
    using generateSelector_no_parent [OF assms(1) noid base that] .
  have "\<exists>prefix. generateSelector d element = (Inr (prefix @ toLowerCase tag @ ''.''), d)"
  proof (cases "parentElement d element")
    case None
    then show ?thesis using none by (intro exI [of _ "[]"]) simp
  next
    case (Some q)
    then obtain ptag pid pcn pcl pas where p: "nodeAt d q = Some (Element ptag pid pcn pcl pas)"
      using parentElement_SomeD by blast
    show ?thesis
    proof (cases "ptag = ''BODY''")
      case True
      then show ?thesis
        using generateSelector_parent [OF assms(1) noid base Some p]
        by (intro exI [of _ "[]"]) simp
    next
      case False
      then show ?thesis
        using generateSelector_parent [OF assms(1) noid base Some p]
        by (intro exI [of _ "(if pid \<noteq> [] then ''#'' @ pid else toLowerCase ptag) @ '' > ''"]) simp
    qed
  qed
  then show ?thesis using base none by blast
qed

theorem blank_class_trailing_dot_witness:
  "nodeAt examplePage [2, 2, 1] = Some (Element ''P'' [] '' '' [] []) \<and>
   '' '' \<noteq> [] \<and>
   baseSelector (Element ''P'' [] '' '' [] []) = Inr ''p.'' \<and>
   (\<exists>prefix. generateSelector examplePage [2, 2, 1] = (Inr (prefix @ ''p.''), examplePage))"
proof -
  have h: "nodeAt examplePage [2, 2, 1] = Some (Element ''P'' [] '' '' [] [])"
    by code_simp
  have l: "toLowerCase ''P'' = ''p''"
    by code_simp
  show ?thesis
    using blank_class_trailing_dot [OF h] h l by simp
qed

end
